theory Spec2Isabelle
  imports Main "HOL-Library.Signed_Division"
begin

section \<open>Shape algebra\<close>

text \<open>
  The tensor code of \<^verbatim>\<open>src/ark/sched/sched.h\<close> (lines 181-399, the body of
  \<^verbatim>\<open>tensor.cc\<close>) is embedded below.
\<close>

text \<open>
  Modelled from the spec: the type \<^verbatim>\<open>DimType\<close> of extents (\<^verbatim>\<open>dims.h\<close> is not among the
  sources), an integer of the machine (section 3), taken as the signed integer of 64 bits.
  A value is the integer it denotes; what the machine does to a value is written out below.
\<close>

type_synonym DimType = int

text \<open>Modelled from the spec: the least value of \<^verbatim>\<open>DimType\<close>, a signed integer of 64 bits.\<close>

definition DimType_min :: DimType where
  "DimType_min = - (2 ^ 63)"

text \<open>Modelled from the spec: the largest value of \<^verbatim>\<open>DimType\<close>, a signed integer of 64 bits.\<close>

definition DimType_max :: DimType where
  "DimType_max = 2 ^ 63 - 1"

text \<open>
  Modelled from the spec: the value that 64 bits in two's complement keep of an integer. C++
  leaves the overflow of a signed operation undefined; the machine cuts the result to its 64
  bits, so a result out of the range \<^const>\<open>DimType_min\<close> .. \<^const>\<open>DimType_max\<close> wraps around.
\<close>

definition DimType_wrap :: "int \<Rightarrow> DimType" where
  "DimType_wrap x = (x + 2 ^ 63) mod 2 ^ 64 - 2 ^ 63"

text \<open>Modelled from the spec: the operator \<^verbatim>\<open>+\<close> of \<^verbatim>\<open>DimType\<close>, a sum of the machine.\<close>

definition DimType_add :: "DimType \<Rightarrow> DimType \<Rightarrow> DimType" where
  "DimType_add a b = DimType_wrap (a + b)"

text \<open>Modelled from the spec: the operator \<^verbatim>\<open>*\<close> of \<^verbatim>\<open>DimType\<close>, a product of the machine.\<close>

definition DimType_mul :: "DimType \<Rightarrow> DimType \<Rightarrow> DimType" where
  "DimType_mul a b = DimType_wrap (a * b)"

text \<open>
  Modelled from the spec: the macros \<^verbatim>\<open>LOGERR\<close> and \<^verbatim>\<open>LOG(ERROR, ...)\<close> (\<^verbatim>\<open>logging.h\<close>
  is not among the sources) raise; section 7 names the error of the shape algebra and of
  the tensor model ShapeInvalid. A division or remainder by zero is a trap of the machine,
  kept apart from it.
\<close>

datatype error = ShapeInvalid | DivideByZero

text \<open>
  Modelled from the spec: the class \<^verbatim>\<open>Dims\<close> (\<^verbatim>\<open>dims.h\<close> is not among the sources).
  Section 3 describes it as an ordered integer vector of at most four components with
  component access, an element count (the product) and a distinguished no-dim sentinel.
  The sentinel is the vector without components, the only one whose \<^verbatim>\<open>ndims()\<close> is 0.
\<close>

type_synonym Dims = "DimType list"

text \<open>Modelled from the spec: the largest number of components of a \<^verbatim>\<open>Dims\<close> (section 3).\<close>

definition DIMS_LEN :: nat where
  "DIMS_LEN = 4"

text \<open>Modelled from the spec: \<^verbatim>\<open>Dims::ndims\<close>, the number of components (section 3).\<close>

definition Dims_ndims :: "Dims \<Rightarrow> nat" where
  "Dims_ndims d = length d"

text \<open>Modelled from the spec: \<^verbatim>\<open>Dims::is_no_dim\<close>, the test for the sentinel (section 3).\<close>

definition is_no_dim :: "Dims \<Rightarrow> bool" where
  "is_no_dim d = (d = [])"

text \<open>
  Modelled from the spec: \<^verbatim>\<open>Dims::size\<close>, the element count, which is the product of the
  components (sections 3 and 4.1).
\<close>

definition Dims_size :: "Dims \<Rightarrow> DimType" where
  "Dims_size d = prod_list d"

text \<open>
  Modelled from the spec: the values a \<^verbatim>\<open>Dims\<close> can hold. Section 3 asks for at most
  four components, each positive. \<^verbatim>\<open>Tensor\<close>'s constructor stores a vector of zeros
  in a \<^verbatim>\<open>Dims\<close> (the default \<^verbatim>\<open>offs\<close>, sched.h:225-229), so zero is a component a
  \<^verbatim>\<open>Dims\<close> holds; negative components and a fifth component are what it refuses.
\<close>

definition Dims_ok :: "Dims \<Rightarrow> bool" where
  "Dims_ok d = (length d \<le> DIMS_LEN \<and> list_all (\<lambda>x. 0 \<le> x) d)"

text \<open>
  Modelled from the spec: the constructor of \<^verbatim>\<open>Dims\<close> from a vector (section 4.1,
  "construct from vector", failing with ShapeInvalid). It refuses exactly the vectors
  that are not \<^const>\<open>Dims_ok\<close>; a zero extent of a shape is refused by \<^verbatim>\<open>Tensor\<close>'s own
  constructor (sched.h:204).
\<close>

definition Dims_ctor :: "DimType list \<Rightarrow> error + Dims" where
  "Dims_ctor vec = (if Dims_ok vec then Inr vec else Inl ShapeInvalid)"



section \<open>Tensors\<close>

datatype TensorType = FP16 | FP32 | INT32 | BYTE

text \<open>
  \<^verbatim>\<open>TensorBuf\<close> (sched.h:193) and the fields of \<^verbatim>\<open>Tensor\<close> that the constructor
  initialises (sched.h:198-202). A tensor refers to its buffer by pointer, which may be null.
\<close>

record TensorBuf =
  bytes :: DimType
  buf_id :: int

record Tensor =
  buf :: "TensorBuf option"
  ttype :: TensorType
  exported :: bool
  imported_rank :: int
  tensor_id :: int
  name :: string
  shape :: Dims
  ldims :: Dims
  offs :: Dims
  pads :: Dims

text \<open>
  The two checking loops of the constructor (sched.h:252-263). \<^verbatim>\<open>LOGERR\<close> raises, which
  ends the construction with ShapeInvalid. The remainder \<^verbatim>\<open>%\<close> of C++ truncates towards
  zero (\<open>smod\<close>) and traps on a zero divisor; the sum \<^verbatim>\<open>offs[i] + shape[i]\<close> is a sum of
  the machine.
\<close>

fun check_pads :: "Dims \<Rightarrow> Dims \<Rightarrow> nat list \<Rightarrow> error + unit" where
  "check_pads l p [] = Inr ()"
| "check_pads l p (i # is) =
     (if p ! i = 0 then Inl DivideByZero
      else if (l ! i) smod (p ! i) \<noteq> 0 then Inl ShapeInvalid
      else check_pads l p is)"

fun check_bounds :: "Dims \<Rightarrow> Dims \<Rightarrow> Dims \<Rightarrow> nat list \<Rightarrow> error + unit" where
  "check_bounds ofs s l [] = Inr ()"
| "check_bounds ofs s l (i # is) =
     (if DimType_add (ofs ! i) (s ! i) > l ! i then Inl ShapeInvalid
      else check_bounds ofs s l is)"

text \<open>
  \<^verbatim>\<open>Tensor::Tensor\<close> (sched.h:198-264). A raise ends the construction, so each
  \<^verbatim>\<open>LOGERR\<close> is a result of its own and the code after it runs only when the test before
  it has passed.
\<close>

definition Tensor_ctor ::
  "Dims \<Rightarrow> TensorType \<Rightarrow> TensorBuf option \<Rightarrow> Dims \<Rightarrow> Dims \<Rightarrow> Dims \<Rightarrow> bool \<Rightarrow> int \<Rightarrow> int \<Rightarrow> string
    \<Rightarrow> error + Tensor" where
  "Tensor_ctor shape_in type_in buf_in ldims_in offs_in pads_in exported_in rank_in id_in name_in =
     (if Dims_size shape_in = 0 then Inl ShapeInvalid
      else
        let shape' = (if is_no_dim shape_in then [1] else shape_in);
            ndims = Dims_ndims shape'
        in
        if \<not> is_no_dim ldims_in \<and> ndims \<noteq> Dims_ndims ldims_in then Inl ShapeInvalid
        else
          let ldims' = (if is_no_dim ldims_in then shape' else ldims_in) in
          if \<not> is_no_dim offs_in \<and> ndims \<noteq> Dims_ndims offs_in then Inl ShapeInvalid
          else
            let offs' = (if is_no_dim offs_in then replicate ndims 0 else offs_in) in
            if \<not> is_no_dim pads_in \<and> ndims \<noteq> Dims_ndims pads_in then Inl ShapeInvalid
            else
              let pads' = (if is_no_dim pads_in then replicate ndims 1 else pads_in) in
              (case check_pads ldims' pads' [0..<ndims] of
                 Inl e \<Rightarrow> Inl e
               | Inr _ \<Rightarrow>
                  (case check_bounds offs' shape' ldims' [0..<ndims] of
                     Inl e \<Rightarrow> Inl e
                   | Inr _ \<Rightarrow>
                       Inr \<lparr> buf = buf_in, ttype = type_in, exported = exported_in,
                             imported_rank = rank_in, tensor_id = id_in, name = name_in,
                             shape = shape', ldims = ldims', offs = offs',
                             pads = pads' \<rparr>)))"

text \<open>
  Modelled from the spec: the construction of a tensor from a shape vector, as a caller
  does it (\<^verbatim>\<open>model.tensor({n, c, h, w}, type)\<close> in ops_transpose_test.cc:14; \<^verbatim>\<open>Model\<close> is
  not among the sources): the vector becomes a \<^verbatim>\<open>Dims\<close>, which \<^verbatim>\<open>Tensor\<close>'s constructor
  receives.
\<close>

definition Tensor_of_vector ::
  "DimType list \<Rightarrow> TensorType \<Rightarrow> TensorBuf option \<Rightarrow> Dims \<Rightarrow> Dims \<Rightarrow> Dims \<Rightarrow> bool \<Rightarrow> int \<Rightarrow> int
    \<Rightarrow> string \<Rightarrow> error + Tensor" where
  "Tensor_of_vector vec type_in buf_in ldims_in offs_in pads_in exported_in rank_in id_in name_in =
     (case Dims_ctor vec of
        Inl e \<Rightarrow> Inl e
      | Inr shape_in \<Rightarrow>
          Tensor_ctor shape_in type_in buf_in ldims_in offs_in pads_in exported_in rank_in id_in
            name_in)"

text \<open>
  \<^verbatim>\<open>Tensor::offset\<close> (sched.h:291-307). Every \<^verbatim>\<open>+\<close> and \<^verbatim>\<open>*\<close> of the source is an
  operation of the machine on \<^verbatim>\<open>DimType\<close>, in the order in which C++ groups them (from the
  left).
\<close>

definition offset :: "Tensor \<Rightarrow> DimType \<Rightarrow> DimType \<Rightarrow> DimType \<Rightarrow> DimType \<Rightarrow> DimType" where
  "offset t i0 i1 i2 i3 =
     (let l = ldims t; ofs = offs t; ndims = Dims_ndims (shape t) in
      if ndims = 0 then 0
      else if ndims = 1 then DimType_add (ofs ! 0) i0
      else if ndims = 2 then
        DimType_add (DimType_add (DimType_mul (DimType_add (ofs ! 0) i0) (l ! 1)) (ofs ! 1)) i1
      else if ndims = 3 then
        DimType_add
          (DimType_add
            (DimType_add
              (DimType_mul (DimType_mul (DimType_add (ofs ! 0) i0) (l ! 1)) (l ! 2))
              (DimType_mul (DimType_add (ofs ! 1) i1) (l ! 2)))
            (ofs ! 2))
          i2
      else
        DimType_add
          (DimType_add
            (DimType_add
              (DimType_add
                (DimType_mul
                  (DimType_mul (DimType_mul (DimType_add (ofs ! 0) i0) (l ! 1)) (l ! 2)) (l ! 3))
                (DimType_mul (DimType_mul (DimType_add (ofs ! 1) i1) (l ! 2)) (l ! 3)))
              (DimType_mul (DimType_add (ofs ! 2) i2) (l ! 3)))
            (ofs ! 3))
          i3)"


definition Tensor_ndims :: "Tensor \<Rightarrow> nat" where
  "Tensor_ndims t = Dims_ndims (shape t)"



text \<open>
  The invariants of a tensor (section 3): one to four axes, the four vectors of one length,
  positive pads, every \<^verbatim>\<open>ldims[i]\<close> a multiple of \<^verbatim>\<open>pads[i]\<close> and no smaller than
  \<^verbatim>\<open>offs[i] + shape[i]\<close>.
\<close>

definition Tensor_inv :: "Tensor \<Rightarrow> bool" where
  "Tensor_inv t =
     (let n = length (shape t) in
      1 \<le> n \<and> n \<le> DIMS_LEN \<and>
      length (ldims t) = n \<and> length (offs t) = n \<and> length (pads t) = n \<and>
      list_all (\<lambda>k. 0 < pads t ! k \<and> pads t ! k dvd ldims t ! k \<and>
                      offs t ! k + shape t ! k \<le> ldims t ! k) [0..<n])"

section \<open>The transpose test\<close>

text \<open>
  The index arithmetic and the checking loop of \<^verbatim>\<open>test_transpose_internal\<close>
  (ops_transpose_test.cc:36-62). The indices of the test are non-negative, and the data are
  the flat arrays \<^verbatim>\<open>in_ptr\<close> and \<^verbatim>\<open>res\<close>; the elements are moved, never computed with, so
  their type is left open.
\<close>

definition in_idx :: "nat \<Rightarrow> nat \<Rightarrow> nat \<Rightarrow> nat \<Rightarrow> nat \<Rightarrow> nat \<Rightarrow> nat \<Rightarrow> nat \<Rightarrow> nat" where
  "in_idx n c h w i j k l = i * c * h * w + j * h * w + k * w + l"

definition res_idx :: "nat list \<Rightarrow> nat \<Rightarrow> nat \<Rightarrow> nat \<Rightarrow> nat \<Rightarrow> nat list \<Rightarrow> nat" where
  "res_idx tns_in_shape pn pc ph pw axis =
     (let oc = tns_in_shape ! pc; oh = tns_in_shape ! ph; ow = tns_in_shape ! pw;
          new_axis = [axis ! pn, axis ! pc, axis ! ph, axis ! pw]
      in new_axis ! 0 * oc * oh * ow + new_axis ! 1 * oh * ow + new_axis ! 2 * ow + new_axis ! 3)"

definition test_transpose_check ::
  "'a list \<Rightarrow> 'a list \<Rightarrow> nat \<Rightarrow> nat \<Rightarrow> nat \<Rightarrow> nat \<Rightarrow> nat \<Rightarrow> nat \<Rightarrow> nat \<Rightarrow> nat \<Rightarrow> bool" where
  "test_transpose_check in_ptr res n c h w pn pc ph pw =
     (\<forall>i \<in> {0..<n}. \<forall>j \<in> {0..<c}. \<forall>k \<in> {0..<h}. \<forall>l \<in> {0..<w}.
        in_idx n c h w i j k l < n * c * h * w \<and>
        res_idx [n, c, h, w] pn pc ph pw [i, j, k, l] < n * c * h * w \<and>
        in_ptr ! in_idx n c h w i j k l = res ! res_idx [n, c, h, w] pn pc ph pw [i, j, k, l])"

text \<open>
  Modelled from the spec: the position of the axis \<^verbatim>\<open>d\<close> in a permutation, by which the
  inverse permutation of property P9 (section 8) is computed.
\<close>

fun index_of :: "nat list \<Rightarrow> nat \<Rightarrow> nat" where
  "index_of [] d = 0"
| "index_of (x # xs) d = (if x = d then 0 else Suc (index_of xs d))"

text \<open>
  Modelled from the spec: the index of the element at the flat position \<^verbatim>\<open>r\<close> of a dense
  row-major tensor of four axes with the extents \<^verbatim>\<open>d\<close>, the inverse of the flat index that
  the test computes.
\<close>

definition unravel :: "nat list \<Rightarrow> nat \<Rightarrow> nat list" where
  "unravel d r =
     [r div (d ! 1 * d ! 2 * d ! 3), r div (d ! 2 * d ! 3) mod d ! 1, r div d ! 3 mod d ! 2,
      r mod d ! 3]"

text \<open>
  Modelled from the spec: the shape of a transposed tensor, \<^verbatim>\<open>shape[perm[m]]\<close> on axis
  \<^verbatim>\<open>m\<close> (the test reads the output extents this way, ops_transpose_test.cc:36-39).
\<close>

definition transpose_shape :: "nat list \<Rightarrow> nat list \<Rightarrow> nat list" where
  "transpose_shape shp perm = map (\<lambda>p. shp ! p) perm"

text \<open>Modelled from the spec: the inverse of a permutation of the axes (property P9).\<close>

definition inverse_perm :: "nat list \<Rightarrow> nat list" where
  "inverse_perm perm = map (index_of perm) [0..<length perm]"

text \<open>
  Modelled from the spec: \<^verbatim>\<open>Model::transpose\<close>, its kernel and the executor that runs it
  are not among the sources. Property P9 and scenario 1 of section 8 make the operation the
  permutation of the axes: the output has the extents \<^verbatim>\<open>shape[perm[m]]\<close>, and its element at
  the index \<^verbatim>\<open>new_axis\<close> is the input element at the index \<^verbatim>\<open>axis\<close> with
  \<^verbatim>\<open>new_axis[m] = axis[perm[m]]\<close>. Both tensors are dense and row-major, four axes each, as
  in the test.
\<close>

definition transpose_op :: "'a list \<Rightarrow> nat list \<Rightarrow> nat list \<Rightarrow> 'a list" where
  "transpose_op data shp perm =
     map (\<lambda>r. let new_axis = unravel (transpose_shape shp perm) r;
                  axis = [new_axis ! index_of perm 0, new_axis ! index_of perm 1,
                          new_axis ! index_of perm 2, new_axis ! index_of perm 3]
              in data ! in_idx (shp ! 0) (shp ! 1) (shp ! 2) (shp ! 3)
                          (axis ! 0) (axis ! 1) (axis ! 2) (axis ! 3))
       [0..<prod_list shp]"

section \<open>Arithmetic of the machine\<close>

lemma DimType_wrap_mod: "DimType_wrap x mod 2 ^ 64 = x mod 2 ^ 64"
proof -
  have "((x + 2 ^ 63) mod 2 ^ 64 - 2 ^ 63) mod 2 ^ 64 = (x + 2 ^ 63 - 2 ^ 63) mod (2 ^ 64 :: int)"
    by (rule mod_diff_cong) simp_all
  then show ?thesis by (simp add: DimType_wrap_def)
qed

lemma DimType_wrap_cong: "x mod 2 ^ 64 = y mod 2 ^ 64 \<Longrightarrow> DimType_wrap x = DimType_wrap y"
proof -
  assume "x mod 2 ^ 64 = y mod 2 ^ 64"
  then have "(x + 2 ^ 63) mod 2 ^ 64 = (y + 2 ^ 63) mod (2 ^ 64 :: int)"
    by (rule mod_add_cong) simp
  then show ?thesis by (simp add: DimType_wrap_def)
qed

lemma DimType_wrap_add_left: "DimType_wrap (DimType_wrap x + y) = DimType_wrap (x + y)"
  by (rule DimType_wrap_cong, rule mod_add_cong, rule DimType_wrap_mod, rule refl)

lemma DimType_wrap_add_right: "DimType_wrap (x + DimType_wrap y) = DimType_wrap (x + y)"
  by (rule DimType_wrap_cong, rule mod_add_cong, rule refl, rule DimType_wrap_mod)

lemma DimType_wrap_mult_left: "DimType_wrap (DimType_wrap x * y) = DimType_wrap (x * y)"
  by (rule DimType_wrap_cong, rule mod_mult_cong, rule DimType_wrap_mod, rule refl)

lemma DimType_wrap_id:
  "DimType_min \<le> x \<Longrightarrow> x \<le> DimType_max \<Longrightarrow> DimType_wrap x = x"
  by (simp add: DimType_wrap_def DimType_min_def DimType_max_def)

lemma DimType_wrap_range: "DimType_min \<le> DimType_wrap x" "DimType_wrap x \<le> DimType_max"
proof -
  have "0 \<le> (x + 2 ^ 63) mod (2 ^ 64 :: int)" "(x + 2 ^ 63) mod (2 ^ 64 :: int) < 2 ^ 64"
    by simp_all
  then show "DimType_min \<le> DimType_wrap x" "DimType_wrap x \<le> DimType_max"
    by (simp_all add: DimType_wrap_def DimType_min_def DimType_max_def)
qed

lemmas DimType_arith = DimType_add_def DimType_mul_def DimType_wrap_add_left
  DimType_wrap_add_right DimType_wrap_mult_left

section \<open>What the constructor establishes\<close>

lemma check_pads_ok:
  "check_pads l p js = Inr u \<longleftrightarrow> (\<forall>i \<in> set js. p ! i \<noteq> 0 \<and> (l ! i) smod (p ! i) = 0)"
  by (induction js) auto

lemma check_bounds_ok:
  "check_bounds ofs s l js = Inr u \<longleftrightarrow>
     (\<forall>i \<in> set js. DimType_add (ofs ! i) (s ! i) \<le> l ! i)"
  by (induction js) auto

lemma Tensor_ctor_Inr_iff:
  fixes s l ofs p :: Dims
  defines "sh \<equiv> (if s = [] then [1] else s)"
  defines "ld \<equiv> (if l = [] then sh else l)"
  defines "os \<equiv> (if ofs = [] then replicate (length sh) 0 else ofs)"
  defines "pd \<equiv> (if p = [] then replicate (length sh) 1 else p)"
  shows "Tensor_ctor s ty b l ofs p ex r i nm = Inr t \<longleftrightarrow>
     Dims_size s \<noteq> 0 \<and> (l = [] \<or> length l = length sh) \<and> (ofs = [] \<or> length ofs = length sh) \<and>
     (p = [] \<or> length p = length sh) \<and>
     (\<forall>k < length sh. pd ! k \<noteq> 0 \<and> (ld ! k) smod (pd ! k) = 0) \<and>
     (\<forall>k < length sh. DimType_add (os ! k) (sh ! k) \<le> ld ! k) \<and>
     t = \<lparr> buf = b, ttype = ty, exported = ex, imported_rank = r, tensor_id = i, name = nm,
           shape = sh, ldims = ld, offs = os, pads = pd \<rparr>"
proof -
  have cp: "\<And>u. check_pads ld pd [0..<length sh] = Inr u \<longleftrightarrow>
      (\<forall>k < length sh. pd ! k \<noteq> 0 \<and> (ld ! k) smod (pd ! k) = 0)"
    by (auto simp: check_pads_ok)
  have cb: "\<And>u. check_bounds os sh ld [0..<length sh] = Inr u \<longleftrightarrow>
      (\<forall>k < length sh. DimType_add (os ! k) (sh ! k) \<le> ld ! k)"
    by (auto simp: check_bounds_ok)
  have unf: "Tensor_ctor s ty b l ofs p ex r i nm =
     (if Dims_size s = 0 then Inl ShapeInvalid
      else if l \<noteq> [] \<and> length sh \<noteq> length l then Inl ShapeInvalid
      else if ofs \<noteq> [] \<and> length sh \<noteq> length ofs then Inl ShapeInvalid
      else if p \<noteq> [] \<and> length sh \<noteq> length p then Inl ShapeInvalid
      else (case check_pads ld pd [0..<length sh] of Inl e \<Rightarrow> Inl e
            | Inr _ \<Rightarrow> (case check_bounds os sh ld [0..<length sh] of Inl e \<Rightarrow> Inl e
               | Inr _ \<Rightarrow> Inr \<lparr> buf = b, ttype = ty, exported = ex, imported_rank = r, tensor_id = i, name = nm,
           shape = sh, ldims = ld, offs = os, pads = pd \<rparr>)))"
    unfolding Tensor_ctor_def Let_def is_no_dim_def Dims_ndims_def sh_def ld_def os_def pd_def
    by simp
  show ?thesis
  proof (cases "check_pads ld pd [0..<length sh]")
    case (Inl e)
    with cp [of "()"] show ?thesis unfolding unf by auto
  next
    case cpr: (Inr u)
    show ?thesis
    proof (cases "check_bounds os sh ld [0..<length sh]")
      case (Inl e)
      with cb [of "()"] cpr show ?thesis unfolding unf by auto
    next
      case (Inr v)
      with cpr cp [of u] cb [of v] show ?thesis unfolding unf by auto
    qed
  qed
qed

lemma smod_eq_0_iff_dvd: "(a::int) smod b = 0 \<longleftrightarrow> b dvd a"
proof -
  have "a smod b = 0 \<longleftrightarrow> \<bar>a\<bar> mod \<bar>b\<bar> = 0"
    by (auto simp: signed_modulo_int_def sgn_if)
  also have "\<dots> \<longleftrightarrow> \<bar>b\<bar> dvd \<bar>a\<bar>"
    by (simp add: dvd_eq_mod_eq_0)
  finally show ?thesis by simp
qed




lemma list1: "length xs = Suc 0 \<Longrightarrow> \<exists>a. xs = [a]"
  by (cases xs) auto

lemma list2: "length xs = 2 \<Longrightarrow> \<exists>a b. xs = [a, b]"
  by (auto simp: numeral_2_eq_2 length_Suc_conv)

lemma list3: "length xs = 3 \<Longrightarrow> \<exists>a b c. xs = [a, b, c]"
  by (auto simp: numeral_3_eq_3 length_Suc_conv)

lemma list4: "length xs = 4 \<Longrightarrow> \<exists>a b c d. xs = [a, b, c, d]"
proof -
  assume "length xs = 4"
  then have "length xs = Suc (Suc (Suc (Suc 0)))" by simp
  then show ?thesis by (auto simp: length_Suc_conv)
qed

lemma sum_lt1: "(\<Sum>k<Suc 0. f k) = (f 0 :: int)"
  by simp

lemma sum_lt2: "(\<Sum>k<(2::nat). f k) = (f 0 + f 1 :: int)"
  by (simp add: lessThan_nat_numeral lessThan_Suc)

lemma sum_lt3: "(\<Sum>k<(3::nat). f k) = (f 0 + f 1 + f 2 :: int)"
  by (simp add: lessThan_nat_numeral lessThan_Suc)

lemma sum_lt4: "(\<Sum>k<(4::nat). f k) = (f 0 + f 1 + f 2 + f 3 :: int)"
  by (simp add: lessThan_nat_numeral lessThan_Suc)

lemma offset1: "length (shape t) = 1 \<Longrightarrow> offset t i0 i1 i2 i3 = DimType_wrap (offs t ! 0 + i0)"
  by (simp add: offset_def Dims_ndims_def Let_def DimType_arith)

lemma offset2: "length (shape t) = 2 \<Longrightarrow> offset t i0 i1 i2 i3 =
    DimType_wrap ((offs t ! 0 + i0) * ldims t ! 1 + offs t ! 1 + i1)"
  by (simp add: offset_def Dims_ndims_def Let_def DimType_arith)

lemma offset3: "length (shape t) = 3 \<Longrightarrow> offset t i0 i1 i2 i3 =
   DimType_wrap ((offs t ! 0 + i0) * ldims t ! 1 * ldims t ! 2 + (offs t ! 1 + i1) * ldims t ! 2 +
     offs t ! 2 + i2)"
  by (simp add: offset_def Dims_ndims_def Let_def DimType_arith)

lemma offset4: "length (shape t) = 4 \<Longrightarrow> offset t i0 i1 i2 i3 =
   DimType_wrap ((offs t ! 0 + i0) * ldims t ! 1 * ldims t ! 2 * ldims t ! 3 +
     (offs t ! 1 + i1) * ldims t ! 2 * ldims t ! 3 + (offs t ! 2 + i2) * ldims t ! 3 +
     offs t ! 3 + i3)"
  by (simp add: offset_def Dims_ndims_def Let_def DimType_arith)

lemma Tensor_ctor_lengths:
  assumes "Tensor_ctor s ty b l ofs p ex r i nm = Inr t"
  shows "length (shape t) \<noteq> 0" 
    and "length (ldims t) = length (shape t)"
    and "length (offs t) = length (shape t)"
    and "length (pads t) = length (shape t)"
  using assms unfolding Tensor_ctor_Inr_iff by (auto split: if_splits)

lemma Tensor_ctor_bounds:
  assumes "Tensor_ctor s ty b l ofs p ex r i nm = Inr t" and "k < length (shape t)"
  shows "DimType_add (offs t ! k) (shape t ! k) \<le> ldims t ! k"
  using assms unfolding Tensor_ctor_Inr_iff by auto

lemma Tensor_ctor_shape_nonneg:
  assumes "Tensor_ctor s ty b l ofs p ex r i nm = Inr t" and "Dims_ok s"
    and "k < length (shape t)"
  shows "0 \<le> shape t ! k"
proof (cases "s = []")
  case True
  with assms(1,3) show ?thesis unfolding Tensor_ctor_Inr_iff by auto
next
  case False
  with assms(1,3) have "shape t = s" "k < length s"
    unfolding Tensor_ctor_Inr_iff by auto
  with assms(2) show ?thesis by (simp add: Dims_ok_def list_all_length)
qed

lemma Tensor_ctor_pads:
  assumes "Tensor_ctor s ty b l ofs p ex r i nm = Inr t" and "k < length (shape t)"
  shows "pads t ! k \<noteq> 0" and "pads t ! k dvd ldims t ! k"
  using assms unfolding Tensor_ctor_Inr_iff smod_eq_0_iff_dvd by auto

lemma Tensor_ctor_offs_nonneg:
  assumes "Tensor_ctor s ty b l ofs p ex r i nm = Inr t" and "Dims_ok ofs"
    and "k < length (shape t)"
  shows "0 \<le> offs t ! k"
proof (cases "ofs = []")
  case True
  with assms(1,3) show ?thesis unfolding Tensor_ctor_Inr_iff by auto
next
  case False
  with assms(1,3) have "offs t = ofs" "k < length ofs"
    unfolding Tensor_ctor_Inr_iff by auto
  with assms(2) show ?thesis by (simp add: Dims_ok_def list_all_length)
qed

lemma Tensor_ctor_pads_nonneg:
  assumes "Tensor_ctor s ty b l ofs p ex r i nm = Inr t" and "Dims_ok p"
    and "k < length (shape t)"
  shows "0 \<le> pads t ! k"
proof (cases "p = []")
  case True
  with assms(1,3) show ?thesis unfolding Tensor_ctor_Inr_iff by auto
next
  case False
  with assms(1,3) have "pads t = p" "k < length p"
    unfolding Tensor_ctor_Inr_iff by auto
  with assms(2) show ?thesis by (simp add: Dims_ok_def list_all_length)
qed

lemma Tensor_ctor_ndims_le:
  assumes "Tensor_ctor s ty b l ofs p ex r i nm = Inr t" and "Dims_ok s"
  shows "length (shape t) \<le> 4"
  using assms unfolding Tensor_ctor_Inr_iff by (auto simp: Dims_ok_def DIMS_LEN_def)

lemma Tensor_ctor_bounds_exact:
  assumes ctor: "Tensor_ctor s ty b l ofs p ex r i nm = Inr t"
    and ok: "Dims_ok s" "Dims_ok ofs"
    and fit: "\<forall>k < length (shape t). offs t ! k + shape t ! k \<le> DimType_max"
    and k: "k < length (shape t)"
  shows "offs t ! k + shape t ! k \<le> ldims t ! k"
proof -
  from Tensor_ctor_shape_nonneg [OF ctor ok(1) k] Tensor_ctor_offs_nonneg [OF ctor ok(2) k]
  have "DimType_min \<le> offs t ! k + shape t ! k" by (simp add: DimType_min_def)
  with fit k have "DimType_wrap (offs t ! k + shape t ! k) = offs t ! k + shape t ! k"
    by (intro DimType_wrap_id) simp_all
  with Tensor_ctor_bounds [OF ctor k] show ?thesis by (simp add: DimType_add_def)
qed

lemma Tensor_ctor_inv:
  assumes ctor: "Tensor_ctor s ty b l ofs p ex r i nm = Inr t"
    and ok: "Dims_ok s" "Dims_ok p" "Dims_ok ofs"
    and fit: "\<forall>k < length (shape t). offs t ! k + shape t ! k \<le> DimType_max"
  shows "Tensor_inv t"
proof -
  note len = Tensor_ctor_lengths [OF ctor]
  have "0 < pads t ! k \<and> pads t ! k dvd ldims t ! k \<and> offs t ! k + shape t ! k \<le> ldims t ! k"
    if "k < length (shape t)" for k
    using Tensor_ctor_pads [OF ctor that] Tensor_ctor_pads_nonneg [OF ctor ok(2) that]
      Tensor_ctor_bounds_exact [OF ctor ok(1,3) fit that] by simp
  with len Tensor_ctor_ndims_le [OF ctor ok(1)] show ?thesis
    by (simp add: Tensor_inv_def Let_def list_all_iff DIMS_LEN_def Suc_le_eq)
qed

lemma radix_step_range:
  fixes d l r m :: int
  assumes "0 \<le> d" "d < l" "0 \<le> r" "r < m"
  shows "0 \<le> d * m + r" and "d * m + r < l * m"
proof -
  from assms have m: "0 < m" by simp
  with assms(1) have "0 \<le> d * m" by simp
  with assms(3) show "0 \<le> d * m + r" by simp
  from assms(2) have "d + 1 \<le> l" by simp
  with m have "(d + 1) * m \<le> l * m" by (simp only: mult_right_mono less_imp_le)
  moreover from assms(4) have "d * m + r < (d + 1) * m" by (simp add: algebra_simps)
  ultimately show "d * m + r < l * m" by simp
qed

lemma radix_step_inj:
  fixes d d' r r' m :: int
  assumes "0 \<le> r" "r < m" "0 \<le> r'" "r' < m" and eq: "d * m + r = d' * m + r'"
  shows "d = d'" and "r = r'"
proof -
  have "(d * m + r) div m = d" using assms(1,2) by (simp add: div_pos_pos_trivial)
  moreover have "(d' * m + r') div m = d'" using assms(3,4) by (simp add: div_pos_pos_trivial)
  ultimately show "d = d'" using eq by simp
  with eq show "r = r'" by simp
qed

lemma radix4_range:
  fixes d0 d1 d2 d3 l0 l1 l2 l3 :: int
  assumes "0 \<le> d0" "d0 < l0" "0 \<le> d1" "d1 < l1" "0 \<le> d2" "d2 < l2" "0 \<le> d3" "d3 < l3"
  shows "0 \<le> d0 * l1 * l2 * l3 + d1 * l2 * l3 + d2 * l3 + d3"
    and "d0 * l1 * l2 * l3 + d1 * l2 * l3 + d2 * l3 + d3 < l0 * l1 * l2 * l3"
proof -
  note s1 = radix_step_range [OF assms(1,2,3,4)]
  note s2 = radix_step_range [OF s1 assms(5,6)]
  note s3 = radix_step_range [OF s2 assms(7,8)]
  have eq: "d0 * l1 * l2 * l3 + d1 * l2 * l3 + d2 * l3 + d3 = ((d0 * l1 + d1) * l2 + d2) * l3 + d3"
    by (simp add: algebra_simps)
  from s3 show "0 \<le> d0 * l1 * l2 * l3 + d1 * l2 * l3 + d2 * l3 + d3"
    and "d0 * l1 * l2 * l3 + d1 * l2 * l3 + d2 * l3 + d3 < l0 * l1 * l2 * l3"
    unfolding eq by simp_all
qed

lemma radix4_inj:
  fixes d0 d1 d2 d3 e0 e1 e2 e3 l1 l2 l3 :: int
  assumes "0 \<le> d1" "d1 < l1" "0 \<le> d2" "d2 < l2" "0 \<le> d3" "d3 < l3"
    and "0 \<le> e1" "e1 < l1" "0 \<le> e2" "e2 < l2" "0 \<le> e3" "e3 < l3"
    and eq: "d0 * l1 * l2 * l3 + d1 * l2 * l3 + d2 * l3 + d3 =
             e0 * l1 * l2 * l3 + e1 * l2 * l3 + e2 * l3 + e3"
  shows "d0 = e0 \<and> d1 = e1 \<and> d2 = e2 \<and> d3 = e3"
proof -
  from eq have "((d0 * l1 + d1) * l2 + d2) * l3 + d3 = ((e0 * l1 + e1) * l2 + e2) * l3 + e3"
    by (simp add: algebra_simps)
  from radix_step_inj [OF assms(5,6) assms(11,12) this]
  have a: "(d0 * l1 + d1) * l2 + d2 = (e0 * l1 + e1) * l2 + e2" and a3: "d3 = e3" .
  from radix_step_inj [OF assms(3,4) assms(9,10) a]
  have b: "d0 * l1 + d1 = e0 * l1 + e1" and a2: "d2 = e2" .
  from radix_step_inj [OF assms(1,2) assms(7,8) b] a2 a3 show ?thesis by simp
qed

lemma all_lt1: "(\<forall>k<(1::nat). P k) \<longleftrightarrow> P 0"
  by simp

lemma all_lt2: "(\<forall>k<(2::nat). P k) \<longleftrightarrow> P 0 \<and> P 1"
proof -
  have "k < 2 \<longleftrightarrow> k = 0 \<or> k = 1" for k :: nat by auto
  then show ?thesis by auto
qed

lemma all_lt3: "(\<forall>k<(3::nat). P k) \<longleftrightarrow> P 0 \<and> P 1 \<and> P 2"
proof -
  have "k < 3 \<longleftrightarrow> k = 0 \<or> k = 1 \<or> k = 2" for k :: nat by auto
  then show ?thesis by auto
qed

lemma all_lt4: "(\<forall>k<(4::nat). P k) \<longleftrightarrow> P 0 \<and> P 1 \<and> P 2 \<and> P 3"
proof -
  have "k < 4 \<longleftrightarrow> k = 0 \<or> k = 1 \<or> k = 2 \<or> k = 3" for k :: nat by auto
  then show ?thesis by auto
qed













lemma offset_wrap_sum:
  assumes ctor: "Tensor_ctor s ty b l ofs p ex r i nm = Inr t"
    and n4: "Tensor_ndims t \<le> 4"
  shows "offset t i0 i1 i2 i3 =
      DimType_wrap
        (\<Sum>k < Tensor_ndims t. (offs t ! k + [i0, i1, i2, i3] ! k) * prod_list (drop (Suc k) (ldims t)))"
proof -
  let ?n = "length (shape t)"
  note len = Tensor_ctor_lengths [OF ctor]
  have nd: "Tensor_ndims t = ?n"
    by (simp add: Tensor_ndims_def Dims_ndims_def)
  from n4 len(1) have "?n = 1 \<or> ?n = 2 \<or> ?n = 3 \<or> ?n = 4"
    unfolding nd by linarith
  then show ?thesis
  proof (elim disjE)
    assume n: "?n = 1"
    with len obtain a where "ldims t = [a]" using list1 [of "ldims t"] by auto
    then show ?thesis unfolding nd offset1 [OF n] n
      by simp
  next
    assume n: "?n = 2"
    with len obtain a c where "ldims t = [a, c]" using list2 [of "ldims t"] by auto
    then show ?thesis unfolding nd offset2 [OF n] n sum_lt2
      by (simp add: algebra_simps)
  next
    assume n: "?n = 3"
    with len obtain a c d where "ldims t = [a, c, d]" using list3 [of "ldims t"] by auto
    then show ?thesis unfolding nd offset3 [OF n] n sum_lt3
      by (simp add: algebra_simps)
  next
    assume n: "?n = 4"
    with len obtain a c d e where "ldims t = [a, c, d, e]" using list4 [of "ldims t"] by auto
    then show ?thesis unfolding nd offset4 [OF n] n sum_lt4
      by (simp add: algebra_simps)
  qed
qed

lemma offset_range_finish:
  assumes "0 \<le> X" "X < P" "0 \<le> Y" "Y < P" "P \<le> DimType_max" "X = Y \<Longrightarrow> Q"
  shows "0 \<le> DimType_wrap X \<and> DimType_wrap X < P \<and> (DimType_wrap X = DimType_wrap Y \<longrightarrow> Q)"
proof -
  from assms(1,2,5) have "DimType_wrap X = X"
    by (intro DimType_wrap_id) (simp_all add: DimType_min_def)
  moreover from assms(3,4,5) have "DimType_wrap Y = Y"
    by (intro DimType_wrap_id) (simp_all add: DimType_min_def)
  ultimately show ?thesis using assms by simp
qed

section \<open>The offset law\<close>

text \<open>
  Claim C1, as stated, at a tensor whose strides leave the range of \<^verbatim>\<open>DimType\<close>: the
  constructor returns the tensor of shape {1, 1, 6}, ldims {4, 2^32, 2^32} and offs {3, 0, 0};
  at the index (0, 0, 5) the sum of the claim is 3 * 2^64 + 5 = 55340232221128654853, and
  \<^verbatim>\<open>Tensor::offset\<close> gives 5.
\<close>

theorem offset_overflow_counterexample:
  "Tensor_ctor [1, 1, 6] FP32 None [4, 4294967296, 4294967296] [3, 0, 0] [] False (- 1) 0 ''t'' =
     Inr \<lparr> buf = None, ttype = FP32, exported = False, imported_rank = - 1, tensor_id = 0,
           name = ''t'', shape = [1, 1, 6], ldims = [4, 4294967296, 4294967296],
           offs = [3, 0, 0], pads = [1, 1, 1] \<rparr> \<and>
   offset \<lparr> buf = None, ttype = FP32, exported = False, imported_rank = - 1, tensor_id = 0,
           name = ''t'', shape = [1, 1, 6], ldims = [4, 4294967296, 4294967296],
           offs = [3, 0, 0], pads = [1, 1, 1] \<rparr> 0 0 5 0 = 5 \<and>
   (3 + 0) * (4294967296 * 4294967296) + (0 + 0) * 4294967296 + (0 + 5) =
     (55340232221128654853 :: int)"
  by code_simp

text \<open>
  Claim C1, amended. For every tensor the constructor returns, with one to four axes, and all
  indices i0..i3, \<^verbatim>\<open>Tensor::offset\<close> is the sum over the axes k of
  (offs[k] + idx[k]) times the product of ldims[j] for j > k, cut to the 64 bits of
  \<^verbatim>\<open>DimType\<close>; it is the sum itself whenever the sum lies in the range of \<^verbatim>\<open>DimType\<close>.
\<close>

theorem offset_formula:
  assumes ctor: "Tensor_ctor s ty b l ofs p ex r i nm = Inr t"
    and n4: "Tensor_ndims t \<le> 4"
  shows "1 \<le> Tensor_ndims t \<and>
    offset t i0 i1 i2 i3 =
      DimType_wrap
        (\<Sum>k < Tensor_ndims t.
            (offs t ! k + [i0, i1, i2, i3] ! k) * prod_list (drop (Suc k) (ldims t))) \<and>
    (DimType_min \<le>
        (\<Sum>k < Tensor_ndims t.
            (offs t ! k + [i0, i1, i2, i3] ! k) * prod_list (drop (Suc k) (ldims t))) \<and>
     (\<Sum>k < Tensor_ndims t.
            (offs t ! k + [i0, i1, i2, i3] ! k) * prod_list (drop (Suc k) (ldims t))) \<le> DimType_max
     \<longrightarrow>
     offset t i0 i1 i2 i3 =
       (\<Sum>k < Tensor_ndims t.
            (offs t ! k + [i0, i1, i2, i3] ! k) * prod_list (drop (Suc k) (ldims t))))"
proof -
  from Tensor_ctor_lengths(1) [OF ctor] have "1 \<le> Tensor_ndims t"
    by (simp add: Tensor_ndims_def Dims_ndims_def Suc_le_eq)
  with offset_wrap_sum [OF ctor n4, of i0 i1 i2 i3] show ?thesis
    by (simp add: DimType_wrap_id)
qed

theorem offset_formula_witness:
  "Tensor_ctor [2, 3, 4, 5] FP32 None [2, 4, 4, 6] [0, 1, 0, 1] [1, 2, 1, 2] False (- 1) 0 ''t'' =
     Inr \<lparr> buf = None, ttype = FP32, exported = False, imported_rank = - 1, tensor_id = 0,
           name = ''t'', shape = [2, 3, 4, 5], ldims = [2, 4, 4, 6], offs = [0, 1, 0, 1],
           pads = [1, 2, 1, 2] \<rparr> \<and>
   offset \<lparr> buf = None, ttype = FP32, exported = False, imported_rank = - 1, tensor_id = 0,
           name = ''t'', shape = [2, 3, 4, 5], ldims = [2, 4, 4, 6], offs = [0, 1, 0, 1],
           pads = [1, 2, 1, 2] \<rparr> 1 2 3 4 = 191"
  using offset_formula [of "[2, 3, 4, 5]" FP32 None "[2, 4, 4, 6]" "[0, 1, 0, 1]" "[1, 2, 1, 2]"
      False "- 1" 0 "''t''" _ 1 2 3 4]
  by (simp add: Tensor_ctor_Inr_iff Dims_size_def Tensor_ndims_def Dims_ndims_def less_Suc_eq
      signed_modulo_int_def sum_lt4 DimType_add_def DimType_wrap_def DimType_min_def
      DimType_max_def)

text \<open>
  Claim C2, as stated, at a tensor whose \<^verbatim>\<open>ldims\<close> have a product beyond the range of
  \<^verbatim>\<open>DimType\<close>: the constructor returns the tensor of shape {2, 1, 6} and ldims
  {4, 2^32, 2^32}, whose product is 2^66; the indices (1, 0, 5) and (0, 0, 5) are in range
  and both have the offset 5.
\<close>

theorem offset_collision_counterexample:
  "Tensor_ctor [2, 1, 6] FP32 None [4, 4294967296, 4294967296] [] [] False (- 1) 0 ''t'' =
     Inr \<lparr> buf = None, ttype = FP32, exported = False, imported_rank = - 1, tensor_id = 0,
           name = ''t'', shape = [2, 1, 6], ldims = [4, 4294967296, 4294967296],
           offs = [0, 0, 0], pads = [1, 1, 1] \<rparr> \<and>
   Dims_size [4, 4294967296, 4294967296] = 73786976294838206464 \<and>
   offset \<lparr> buf = None, ttype = FP32, exported = False, imported_rank = - 1, tensor_id = 0,
           name = ''t'', shape = [2, 1, 6], ldims = [4, 4294967296, 4294967296],
           offs = [0, 0, 0], pads = [1, 1, 1] \<rparr> 1 0 5 0 = 5 \<and>
   offset \<lparr> buf = None, ttype = FP32, exported = False, imported_rank = - 1, tensor_id = 0,
           name = ''t'', shape = [2, 1, 6], ldims = [4, 4294967296, 4294967296],
           offs = [0, 0, 0], pads = [1, 1, 1] \<rparr> 0 0 5 0 = 5"
  by code_simp

text \<open>
  Claim C2, amended. For a tensor the constructor returns from \<^verbatim>\<open>Dims\<close> arguments, whose sums
  offs[k] + shape[k] and whose product of ldims are at most the largest \<^verbatim>\<open>DimType\<close>, and
  indices with 0 \<le> idx[k] < shape[k] on every axis, the offset lies in [0, size(ldims))
  and two index vectors with the same offset agree on every axis.
\<close>

theorem offset_injective_in_range:
  assumes ctor: "Tensor_ctor s ty b l ofs p ex r i nm = Inr t"
    and ok: "Dims_ok s" "Dims_ok ofs"
    and fit: "\<forall>k < Tensor_ndims t. offs t ! k + shape t ! k \<le> DimType_max"
    and size: "Dims_size (ldims t) \<le> DimType_max"
    and idx: "\<forall>k < Tensor_ndims t. 0 \<le> [i0, i1, i2, i3] ! k \<and> [i0, i1, i2, i3] ! k < shape t ! k"
    and jdx: "\<forall>k < Tensor_ndims t. 0 \<le> [j0, j1, j2, j3] ! k \<and> [j0, j1, j2, j3] ! k < shape t ! k"
  shows "0 \<le> offset t i0 i1 i2 i3 \<and> offset t i0 i1 i2 i3 < Dims_size (ldims t) \<and>
         (offset t i0 i1 i2 i3 = offset t j0 j1 j2 j3 \<longrightarrow>
            (\<forall>k < Tensor_ndims t. [i0, i1, i2, i3] ! k = [j0, j1, j2, j3] ! k))"
proof -
  let ?n = "length (shape t)"
  note len = Tensor_ctor_lengths [OF ctor]
  have nd: "Tensor_ndims t = ?n"
    by (simp add: Tensor_ndims_def Dims_ndims_def)
  have D: "0 \<le> offs t ! k + [i0, i1, i2, i3] ! k \<and> offs t ! k + [i0, i1, i2, i3] ! k < ldims t ! k"
    if "k < ?n" for k
    using idx [unfolded nd, rule_format, OF that]
      Tensor_ctor_bounds_exact [OF ctor ok fit [unfolded nd] that]
      Tensor_ctor_offs_nonneg [OF ctor ok(2) that] by linarith
  have E: "0 \<le> offs t ! k + [j0, j1, j2, j3] ! k \<and> offs t ! k + [j0, j1, j2, j3] ! k < ldims t ! k"
    if "k < ?n" for k
    using jdx [unfolded nd, rule_format, OF that]
      Tensor_ctor_bounds_exact [OF ctor ok fit [unfolded nd] that]
      Tensor_ctor_offs_nonneg [OF ctor ok(2) that] by linarith
  from Tensor_ctor_ndims_le [OF ctor ok(1)] len(1)
  have "?n = 1 \<or> ?n = 2 \<or> ?n = 3 \<or> ?n = 4" by linarith
  then show ?thesis
  proof (elim disjE)
    assume n: "?n = 1"
    with len obtain a where l: "ldims t = [a]" using list1 [of "ldims t"] by auto
    from D [of 0] E [of 0] n l
    have d: "0 \<le> offs t ! 0 + i0" "offs t ! 0 + i0 < a"
      and e: "0 \<le> offs t ! 0 + j0" "offs t ! 0 + j0 < a"
      by simp_all
    from size l have P: "a \<le> DimType_max" by (simp add: Dims_size_def)
    have inj: "offs t ! 0 + i0 = offs t ! 0 + j0 \<Longrightarrow> i0 = j0" by simp
    from offset_range_finish [OF d e P inj] show ?thesis
      unfolding nd offset1 [OF n] n all_lt1 Dims_size_def l by simp
  next
    assume n: "?n = 2"
    with len obtain a c where l: "ldims t = [a, c]" using list2 [of "ldims t"] by auto
    from D [of 0] D [of 1] E [of 0] E [of 1] n l
    have d: "0 \<le> offs t ! 0 + i0" "offs t ! 0 + i0 < a" "0 \<le> offs t ! 1 + i1" "offs t ! 1 + i1 < c"
      and e: "0 \<le> offs t ! 0 + j0" "offs t ! 0 + j0 < a" "0 \<le> offs t ! 1 + j1" "offs t ! 1 + j1 < c"
      by simp_all
    have z: "(0::int) \<le> 0" "(0::int) < 1" by simp_all
    let ?X = "(offs t ! 0 + i0) * c + offs t ! 1 + i1"
    let ?Y = "(offs t ! 0 + j0) * c + offs t ! 1 + j1"
    from radix4_range [OF z z d] have X: "0 \<le> ?X" "?X < a * c" by (simp_all add: add.assoc)
    from radix4_range [OF z z e] have Y: "0 \<le> ?Y" "?Y < a * c" by (simp_all add: add.assoc)
    from size l have P: "a * c \<le> DimType_max" by (simp add: Dims_size_def)
    have inj: "?X = ?Y \<Longrightarrow> i0 = j0 \<and> i1 = j1"
      using radix4_inj [OF z d z e, where ?d0.0 = 0 and ?e0.0 = 0] by (simp add: add.assoc)
    from offset_range_finish [OF X Y P inj] l show ?thesis
      unfolding nd offset2 [OF n] n all_lt2 Dims_size_def by simp
  next
    assume n: "?n = 3"
    with len obtain a c d where l: "ldims t = [a, c, d]" using list3 [of "ldims t"] by auto
    from D [of 0] D [of 1] D [of 2] E [of 0] E [of 1] E [of 2] n l
    have d: "0 \<le> offs t ! 0 + i0" "offs t ! 0 + i0 < a" "0 \<le> offs t ! 1 + i1" "offs t ! 1 + i1 < c"
           "0 \<le> offs t ! 2 + i2" "offs t ! 2 + i2 < d"
      and e: "0 \<le> offs t ! 0 + j0" "offs t ! 0 + j0 < a" "0 \<le> offs t ! 1 + j1" "offs t ! 1 + j1 < c"
           "0 \<le> offs t ! 2 + j2" "offs t ! 2 + j2 < d"
      by simp_all
    have z: "(0::int) \<le> 0" "(0::int) < 1" by simp_all
    let ?X = "(offs t ! 0 + i0) * c * d + (offs t ! 1 + i1) * d + offs t ! 2 + i2"
    let ?Y = "(offs t ! 0 + j0) * c * d + (offs t ! 1 + j1) * d + offs t ! 2 + j2"
    from radix4_range [OF z d] have X: "0 \<le> ?X" "?X < a * c * d" by (simp_all add: add.assoc)
    from radix4_range [OF z e] have Y: "0 \<le> ?Y" "?Y < a * c * d" by (simp_all add: add.assoc)
    from size l have P: "a * c * d \<le> DimType_max" by (simp add: Dims_size_def mult.assoc)
    have inj: "?X = ?Y \<Longrightarrow> i0 = j0 \<and> i1 = j1 \<and> i2 = j2"
      using radix4_inj [OF d e, where ?d0.0 = 0 and ?e0.0 = 0] by (simp add: add.assoc)
    from offset_range_finish [OF X Y P inj] l show ?thesis
      unfolding nd offset3 [OF n] n all_lt3 Dims_size_def by (simp add: mult.assoc)
  next
    assume n: "?n = 4"
    with len obtain a c d e where l: "ldims t = [a, c, d, e]" using list4 [of "ldims t"] by auto
    from D [of 0] D [of 1] D [of 2] D [of 3] E [of 0] E [of 1] E [of 2] E [of 3] n l
    have d: "0 \<le> offs t ! 0 + i0" "offs t ! 0 + i0 < a" "0 \<le> offs t ! 1 + i1" "offs t ! 1 + i1 < c"
           "0 \<le> offs t ! 2 + i2" "offs t ! 2 + i2 < d" "0 \<le> offs t ! 3 + i3" "offs t ! 3 + i3 < e"
      and e: "0 \<le> offs t ! 0 + j0" "offs t ! 0 + j0 < a" "0 \<le> offs t ! 1 + j1" "offs t ! 1 + j1 < c"
           "0 \<le> offs t ! 2 + j2" "offs t ! 2 + j2 < d" "0 \<le> offs t ! 3 + j3" "offs t ! 3 + j3 < e"
      by simp_all
    let ?X = "(offs t ! 0 + i0) * c * d * e + (offs t ! 1 + i1) * d * e + (offs t ! 2 + i2) * e +
        offs t ! 3 + i3"
    let ?Y = "(offs t ! 0 + j0) * c * d * e + (offs t ! 1 + j1) * d * e + (offs t ! 2 + j2) * e +
        offs t ! 3 + j3"
    from radix4_range [OF d] have X: "0 \<le> ?X" "?X < a * c * d * e" by (simp_all add: add.assoc)
    from radix4_range [OF e] have Y: "0 \<le> ?Y" "?Y < a * c * d * e" by (simp_all add: add.assoc)
    from size l have P: "a * c * d * e \<le> DimType_max" by (simp add: Dims_size_def mult.assoc)
    have inj: "?X = ?Y \<Longrightarrow> i0 = j0 \<and> i1 = j1 \<and> i2 = j2 \<and> i3 = j3"
      using radix4_inj [OF d(3-8) e(3-8), where ?d0.0 = "offs t ! 0 + i0"
          and ?e0.0 = "offs t ! 0 + j0"] by (simp add: add.assoc)
    from offset_range_finish [OF X Y P inj] l show ?thesis
      unfolding nd offset4 [OF n] n all_lt4 Dims_size_def by (simp add: mult.assoc)
  qed
qed

theorem offset_injective_in_range_witness:
  "Tensor_ctor [2, 3] FP32 None [2, 4] [0, 1] [1, 2] False (- 1) 0 ''t'' =
     Inr \<lparr> buf = None, ttype = FP32, exported = False, imported_rank = - 1, tensor_id = 0,
           name = ''t'', shape = [2, 3], ldims = [2, 4], offs = [0, 1], pads = [1, 2] \<rparr> \<and>
   Dims_ok [2, 3] \<and> Dims_ok [0, 1] \<and>
   0 \<le> offset \<lparr> buf = None, ttype = FP32, exported = False, imported_rank = - 1, tensor_id = 0,
           name = ''t'', shape = [2, 3], ldims = [2, 4], offs = [0, 1], pads = [1, 2] \<rparr> 1 2 0 0 \<and>
   offset \<lparr> buf = None, ttype = FP32, exported = False, imported_rank = - 1, tensor_id = 0,
           name = ''t'', shape = [2, 3], ldims = [2, 4], offs = [0, 1], pads = [1, 2] \<rparr> 1 2 0 0 < 8 \<and>
   offset \<lparr> buf = None, ttype = FP32, exported = False, imported_rank = - 1, tensor_id = 0,
           name = ''t'', shape = [2, 3], ldims = [2, 4], offs = [0, 1], pads = [1, 2] \<rparr> 1 2 0 0 \<noteq>
   offset \<lparr> buf = None, ttype = FP32, exported = False, imported_rank = - 1, tensor_id = 0,
           name = ''t'', shape = [2, 3], ldims = [2, 4], offs = [0, 1], pads = [1, 2] \<rparr> 0 2 0 0"
  using offset_injective_in_range [of "[2, 3]" FP32 None "[2, 4]" "[0, 1]" "[1, 2]" False "- 1" 0
      "''t''" _ 1 2 0 0 0 2 0 0]
  by (auto simp: Tensor_ctor_Inr_iff Dims_size_def Tensor_ndims_def Dims_ndims_def Dims_ok_def
      DIMS_LEN_def smod_eq_0_iff_dvd less_Suc_eq DimType_add_def DimType_wrap_def DimType_max_def)

section \<open>Construction\<close>




text \<open>
  Claim C5. A shape vector with a component that is zero or negative, or with more than
  four components, never becomes a tensor: the construction fails with ShapeInvalid.
\<close>

theorem shape_vector_rejected:
  assumes "(\<exists>x \<in> set vec. x \<le> 0) \<or> 4 < length vec"
  shows "Tensor_of_vector vec ty b l ofs p ex r i nm = Inl ShapeInvalid"
proof (cases "Dims_ok vec")
  case False
  then show ?thesis by (simp add: Tensor_of_vector_def Dims_ctor_def)
next
  case True
  with assms obtain x where "x \<in> set vec" "x \<le> 0" "0 \<le> x"
    by (auto simp: Dims_ok_def DIMS_LEN_def list_all_iff)
  then have "0 \<in> set vec" by simp
  then have "Dims_size vec = 0" by (simp add: Dims_size_def prod_list_zero_iff)
  with True show ?thesis
    by (simp add: Tensor_of_vector_def Dims_ctor_def Tensor_ctor_def)
qed

theorem shape_vector_rejected_witness:
  "Tensor_of_vector [2, 0, 3] FP32 None [] [] [] False (- 1) 0 ''t'' = Inl ShapeInvalid \<and>
   Tensor_of_vector [2, - 3] FP32 None [] [] [] False (- 1) 0 ''t'' = Inl ShapeInvalid \<and>
   Tensor_of_vector [1, 2, 3, 4, 5] FP32 None [] [] [] False (- 1) 0 ''t'' = Inl ShapeInvalid"
  using shape_vector_rejected [of "[2, 0, 3]"] shape_vector_rejected [of "[2, - 3]"]
    shape_vector_rejected [of "[1, 2, 3, 4, 5]"]
  by simp



section \<open>Padding\<close>








section \<open>Transpose round trip\<close>

lemma ravel_bound:
  fixes a0 a1 a2 a3 d0 d1 d2 d3 :: nat
  assumes "a0 < d0" "a1 < d1" "a2 < d2" "a3 < d3"
  shows "a0 * d1 * d2 * d3 + a1 * d2 * d3 + a2 * d3 + a3 < d0 * d1 * d2 * d3"
proof -
  have step: "x * m + y < l * m" if "x < l" "y < m" for x y l m :: nat
  proof -
    from that have "x * m + y < x * m + m" by simp
    also have "\<dots> = Suc x * m" by simp
    also from that have "\<dots> \<le> l * m" by (intro mult_le_mono1) simp
    finally show ?thesis .
  qed
  from step [OF step [OF step [OF assms(1,2)] assms(3)] assms(4)]
  show ?thesis by (simp add: algebra_simps)
qed

lemma unravel_ravel:
  fixes a0 a1 a2 a3 d1 d2 d3 :: nat
  assumes "a1 < d1" "a2 < d2" "a3 < d3"
  defines "r \<equiv> a0 * d1 * d2 * d3 + a1 * d2 * d3 + a2 * d3 + a3"
  shows "r div (d1 * d2 * d3) = a0" "r div (d2 * d3) mod d1 = a1" "r div d3 mod d2 = a2"
    "r mod d3 = a3"
proof -
  have r3: "r = ((a0 * d1 + a1) * d2 + a2) * d3 + a3"
    by (simp add: r_def algebra_simps)
  from assms(3) show m3: "r mod d3 = a3" unfolding r3 by simp
  from assms(3) have q3: "r div d3 = (a0 * d1 + a1) * d2 + a2" unfolding r3 by simp
  with assms(2) show "r div d3 mod d2 = a2" by simp
  have "r div (d2 * d3) = r div d3 div d2"
  proof -
    have "r div (d2 * d3) = r div (d3 * d2)" by (simp add: mult.commute)
    then show ?thesis by (simp only: div_mult2_eq)
  qed
  with q3 assms(2) have q2: "r div (d2 * d3) = a0 * d1 + a1" by simp
  with assms(1) show "r div (d2 * d3) mod d1 = a1" by simp
  have "r div (d1 * d2 * d3) = r div (d2 * d3) div d1"
  proof -
    have "r div (d1 * d2 * d3) = r div (d2 * d3 * d1)" by (simp add: mult.commute mult.left_commute)
    then show ?thesis by (simp only: div_mult2_eq)
  qed
  with q2 assms(1) show "r div (d1 * d2 * d3) = a0" by simp
qed

lemma horner4_nat:
  fixes q m1 m2 m3 d1 d2 d3 :: nat
  shows "q * d1 * d2 * d3 + m1 * d2 * d3 + m2 * d3 + m3 = ((q * d1 + m1) * d2 + m2) * d3 + m3"
  by (simp add: algebra_simps)

lemma ravel_unravel:
  fixes r d1 d2 d3 :: nat
  shows "r div (d1 * d2 * d3) * d1 * d2 * d3 + (r div (d2 * d3) mod d1) * d2 * d3 +
         (r div d3 mod d2) * d3 + r mod d3 = r"
proof -
  have a: "r div (d2 * d3) = r div d3 div d2"
  proof -
    have "r div (d2 * d3) = r div (d3 * d2)" by (simp add: mult.commute)
    then show ?thesis by (simp only: div_mult2_eq)
  qed
  have b: "r div (d1 * d2 * d3) = r div d3 div d2 div d1"
  proof -
    have "r div (d1 * d2 * d3) = r div (d3 * (d2 * d1))" by (simp add: mult.commute mult.left_commute)
    then show ?thesis by (simp only: div_mult2_eq)
  qed
  have "r div d3 div d2 div d1 * d1 * d2 * d3 + (r div d3 div d2 mod d1) * d2 * d3 +
         (r div d3 mod d2) * d3 + r mod d3 =
        ((r div d3 div d2 div d1 * d1 + r div d3 div d2 mod d1) * d2 + r div d3 mod d2) * d3 + r mod d3"
    by (rule horner4_nat)
  also have "\<dots> = r" by simp
  finally show ?thesis unfolding a b .
qed

lemma unravel_bound:
  fixes r d0 d1 d2 d3 :: nat
  assumes "r < d0 * d1 * d2 * d3"
  shows "r div (d1 * d2 * d3) < d0" "r div (d2 * d3) mod d1 < d1" "r div d3 mod d2 < d2"
    "r mod d3 < d3"
proof -
  from assms have pos: "0 < d1" "0 < d2" "0 < d3" by (auto intro: Nat.gr0I)
  then show "r div (d2 * d3) mod d1 < d1" "r div d3 mod d2 < d2" "r mod d3 < d3" by simp_all
  from assms have "r < d0 * (d1 * d2 * d3)" by (simp add: mult.assoc)
  with pos show "r div (d1 * d2 * d3) < d0"
    by (simp add: less_mult_imp_div_less mult.commute)
qed

lemma length_transpose_op: "length (transpose_op data shp perm) = prod_list shp"
  by (simp add: transpose_op_def)

lemma transpose_op_0213_nth:
  assumes "r < n * c * h * w"
  shows "transpose_op data [n, c, h, w] [0, 2, 1, 3] ! r =
         data ! in_idx n c h w (r div (h * c * w)) (r div w mod c) (r div (c * w) mod h) (r mod w)"
  using assms by (simp add: transpose_op_def transpose_shape_def unravel_def Let_def)

lemma res_idx_0213:
  "res_idx [n, c, h, w] 0 2 1 3 [i, j, k, l] = i * h * c * w + k * c * w + j * w + l"
  by (simp add: res_idx_def Let_def)

lemma transpose_op_0213_at:
  assumes "i < n" "j < c" "k < h" "l < w"
  shows "i * h * c * w + k * c * w + j * w + l < n * c * h * w"
    and "transpose_op data [n, c, h, w] [0, 2, 1, 3] ! (i * h * c * w + k * c * w + j * w + l) =
         data ! in_idx n c h w i j k l"
proof -
  let ?r = "i * h * c * w + k * c * w + j * w + l"
  from ravel_bound [OF assms(1,3,2,4)] show lt: "?r < n * c * h * w"
    by (simp add: mult.commute mult.left_commute)
  note u = unravel_ravel [OF assms(3,2,4), of i]
  from transpose_op_0213_nth [OF lt, of data] u
  show "transpose_op data [n, c, h, w] [0, 2, 1, 3] ! ?r = data ! in_idx n c h w i j k l"
    by simp
qed

lemma transpose_0213_check:
  "test_transpose_check data (transpose_op data [n, c, h, w] [0, 2, 1, 3]) n c h w 0 2 1 3"
proof -
  have "in_idx n c h w i j k l < n * c * h * w \<and>
        res_idx [n, c, h, w] 0 2 1 3 [i, j, k, l] < n * c * h * w \<and>
        data ! in_idx n c h w i j k l =
        transpose_op data [n, c, h, w] [0, 2, 1, 3] ! res_idx [n, c, h, w] 0 2 1 3 [i, j, k, l]"
    if "i < n" "j < c" "k < h" "l < w" for i j k l
  proof -
    have "in_idx n c h w i j k l < n * c * h * w"
      unfolding in_idx_def using that by (rule ravel_bound)
    with transpose_op_0213_at(1) [OF that] transpose_op_0213_at(2) [OF that, of data] show ?thesis
      unfolding res_idx_0213 by simp
  qed
  then have "\<forall>i \<in> {0..<n}. \<forall>j \<in> {0..<c}. \<forall>k \<in> {0..<h}. \<forall>l \<in> {0..<w}.
        in_idx n c h w i j k l < n * c * h * w \<and>
        res_idx [n, c, h, w] 0 2 1 3 [i, j, k, l] < n * c * h * w \<and>
        data ! in_idx n c h w i j k l =
        transpose_op data [n, c, h, w] [0, 2, 1, 3] ! res_idx [n, c, h, w] 0 2 1 3 [i, j, k, l]"
    by simp
  then show ?thesis
    by (simp add: test_transpose_check_def)
qed

lemma transpose_0213_roundtrip:
  assumes len: "length data = n * c * h * w"
  shows "transpose_op (transpose_op data [n, c, h, w] [0, 2, 1, 3]) [n, h, c, w] [0, 2, 1, 3] = data"
proof (rule nth_equalityI)
  show "length (transpose_op (transpose_op data [n, c, h, w] [0, 2, 1, 3]) [n, h, c, w] [0, 2, 1, 3]) =
        length data"
    by (simp add: length_transpose_op len mult.commute mult.left_commute)
next
  fix r
  assume "r < length (transpose_op (transpose_op data [n, c, h, w] [0, 2, 1, 3]) [n, h, c, w] [0, 2, 1, 3])"
  then have r: "r < n * c * h * w"
    by (simp add: length_transpose_op mult.commute mult.left_commute)
  then have r': "r < n * h * c * w"
    by (simp add: mult.commute mult.left_commute)
  let ?a0 = "r div (c * h * w)" and ?a1 = "r div (h * w) mod c" and ?a2 = "r div w mod h"
    and ?a3 = "r mod w"
  note b = unravel_bound [OF r]
  have "transpose_op (transpose_op data [n, c, h, w] [0, 2, 1, 3]) [n, h, c, w] [0, 2, 1, 3] ! r =
        transpose_op data [n, c, h, w] [0, 2, 1, 3] ! in_idx n h c w ?a0 ?a2 ?a1 ?a3"
    by (rule transpose_op_0213_nth [OF r'])
  also have "\<dots> = data ! in_idx n c h w ?a0 ?a1 ?a2 ?a3"
    unfolding in_idx_def [of n h c w] by (rule transpose_op_0213_at(2) [OF b])
  also have "in_idx n c h w ?a0 ?a1 ?a2 ?a3 = r"
    unfolding in_idx_def by (rule ravel_unravel)
  finally show "transpose_op (transpose_op data [n, c, h, w] [0, 2, 1, 3]) [n, h, c, w] [0, 2, 1, 3] ! r =
      data ! r" .
qed

text \<open>
  Claim C7. For a tensor of shape (3, 2048, 96, 128) and the permutation (0, 2, 1, 3), the
  check of the test succeeds on the transposed data: every index of the test is in range and
  the output element at the permuted index is the input element. Transposing the output
  with the inverse permutation gives back the input, element for element.
\<close>

theorem transpose_fp32_roundtrip:
  fixes data :: "'a list"
  assumes "length data = 3 * 2048 * 96 * 128"
  shows "test_transpose_check data (transpose_op data [3, 2048, 96, 128] [0, 2, 1, 3])
           3 2048 96 128 0 2 1 3 \<and>
         transpose_op (transpose_op data [3, 2048, 96, 128] [0, 2, 1, 3])
           (transpose_shape [3, 2048, 96, 128] [0, 2, 1, 3]) (inverse_perm [0, 2, 1, 3]) = data"
proof -
  have sh: "transpose_shape [3, 2048, 96, 128] [0, 2, 1, 3] = [3, 96, 2048, 128]"
    by (simp add: transpose_shape_def)
  have ip: "inverse_perm [0, 2, 1, 3] = [0, 2, 1, 3]"
    by (simp add: inverse_perm_def)
  from assms show ?thesis
    unfolding sh ip
    by (intro conjI transpose_0213_check transpose_0213_roundtrip)
qed

theorem transpose_fp32_roundtrip_witness:
  "test_transpose_check (map int [0..<3 * 2048 * 96 * 128])
     (transpose_op (map int [0..<3 * 2048 * 96 * 128]) [3, 2048, 96, 128] [0, 2, 1, 3])
     3 2048 96 128 0 2 1 3 \<and>
   transpose_op (transpose_op (map int [0..<3 * 2048 * 96 * 128]) [3, 2048, 96, 128] [0, 2, 1, 3])
     (transpose_shape [3, 2048, 96, 128] [0, 2, 1, 3]) (inverse_perm [0, 2, 1, 3]) =
   map int [0..<3 * 2048 * 96 * 128]"
proof (rule transpose_fp32_roundtrip)
  show "length (map int [0..<3 * 2048 * 96 * 128]) = 3 * 2048 * 96 * 128"
    by (simp only: length_map length_upt diff_zero)
qed

end
